theory Spec2Isabelle
  imports Main
begin

section \<open>The OasisDEX market client of \<open>pymaker/oasis.py\<close>\<close>

subsection \<open>Errors, addresses and fixed-point amounts\<close>

text \<open>
  Python exceptions are values. \<open>AssertionError\<close> is what a failed \<open>assert\<close> raises
  (the precondition violation the specification calls "Invalid Argument");
  \<open>ArithmeticError\<close> is what a fixed-point division by zero raises.
\<close>

datatype error = AssertionError | ArithmeticError

text \<open>
  Modelled from the spec: the class \<open>Address\<close> of \<open>pymaker\<close> is not part of
  \<open>oasis.py\<close>. An address wraps the string the ledger reports, and two addresses are
  equal when the strings are.
\<close>

datatype address = Address (address_str: string)

text \<open>
  Modelled from the spec: the class \<open>Wad\<close> of \<open>pymaker.numeric\<close> is not part of
  \<open>oasis.py\<close>. A \<open>Wad\<close> is a fixed-point quantity, here its raw integer \<open>value\<close> at the
  scale \<open>WAD\<close> (18 decimals); two quantities are equal, and are compared, as their raw
  integers are. Division and multiplication rescale and drop the digits beyond the
  scale (rounding toward zero); dividing by zero raises.
\<close>

type_synonym wad = int

definition WAD :: int where
  "WAD = 1000000000000000000"

definition wad_div :: "wad \<Rightarrow> wad \<Rightarrow> error + wad" where
  "wad_div a b =
     (if b = 0 then Inl ArithmeticError
      else Inr (sgn a * sgn b * ((\<bar>a\<bar> * WAD) div \<bar>b\<bar>)))"

definition wad_mul :: "wad \<Rightarrow> wad \<Rightarrow> wad" where
  "wad_mul a b = sgn a * sgn b * ((\<bar>a\<bar> * \<bar>b\<bar>) div WAD)"

subsection \<open>Orders\<close>

text \<open>
  The class \<open>Order\<close>. The field \<open>_market\<close> is a reference to the market client that
  produced the order; only its \<open>address\<close> is ever read, so the record keeps that.
\<close>

record order =
  market_address :: address
  order_id :: int
  maker :: address
  pay_token :: address
  pay_amount :: wad
  buy_token :: address
  buy_amount :: wad
  timestamp :: int

definition sell_to_buy_price :: "order \<Rightarrow> error + wad" where
  "sell_to_buy_price ord = wad_div (pay_amount ord) (buy_amount ord)"

definition buy_to_sell_price :: "order \<Rightarrow> error + wad" where
  "buy_to_sell_price ord = wad_div (buy_amount ord) (pay_amount ord)"

definition remaining_sell_amount :: "order \<Rightarrow> wad" where
  "remaining_sell_amount ord = pay_amount ord"

text \<open>\<open>Order.__eq__\<close> and \<open>Order.__hash__\<close>.\<close>

definition order_eq :: "order \<Rightarrow> order \<Rightarrow> bool" where
  "order_eq self other \<longleftrightarrow>
     market_address self = market_address other \<and> order_id self = order_id other"

definition order_hash :: "order \<Rightarrow> int" where
  "order_hash self = order_id self"

subsection \<open>The remote ledger and the client's state\<close>

text \<open>
  The tuple the contract's \<open>offers(id)\<close> returns, by index: 0 pay amount, 1 pay token,
  2 buy amount, 3 buy token, 4 owner, 5 active flag, 6 timestamp.
\<close>

record offer =
  offer_pay_amt :: int
  offer_pay_gem :: string
  offer_buy_amt :: int
  offer_buy_gem :: string
  offer_owner :: string
  offer_active :: bool
  offer_timestamp :: int

text \<open>
  The contract state a read sees: \<open>last_offer_id()\<close>, \<open>offers(id)\<close>, and the two
  flags \<open>buyEnabled()\<close> and \<open>matchingEnabled()\<close> of the matching market.
\<close>

record ledger =
  last_offer_id :: int
  offers :: "int \<Rightarrow> offer"
  buyEnabled :: bool
  matchingEnabled :: bool

text \<open>
  A remote read issued through \<open>self._contract.call()\<close>. The client's state keeps the
  trace of the reads it has issued, next to the fields of \<open>SimpleMarket.__init__\<close>
  that the code reads or writes: \<open>address\<close> and the set \<open>_none_orders\<close>.
\<close>

datatype call = CallLastOfferId | CallOffers int | CallBuyEnabled | CallMatchingEnabled

record market =
  address :: address
  none_orders :: "int set"
  contract_calls :: "call list"

definition init_market :: "address \<Rightarrow> market" where
  "init_market a = \<lparr>address = a, none_orders = {}, contract_calls = []\<rparr>"

definition get_last_order_id :: "ledger \<Rightarrow> market \<Rightarrow> int \<times> market" where
  "get_last_order_id L self =
     (last_offer_id L, self\<lparr>contract_calls := contract_calls self @ [CallLastOfferId]\<rparr>)"

definition get_order :: "ledger \<Rightarrow> market \<Rightarrow> int \<Rightarrow> order option \<times> market" where
  "get_order L self oid =
     (if oid \<in> none_orders self then (None, self)
      else
        let array = offers L oid;
            self1 = self\<lparr>contract_calls := contract_calls self @ [CallOffers oid]\<rparr>
        in if offer_active array \<noteq> True
           then (None, self1\<lparr>none_orders := insert oid (none_orders self1)\<rparr>)
           else (Some \<lparr>market_address = address self1, order_id = oid,
                       maker = Address (offer_owner array),
                       pay_token = Address (offer_pay_gem array),
                       pay_amount = offer_pay_amt array,
                       buy_token = Address (offer_buy_gem array),
                       buy_amount = offer_buy_amt array,
                       timestamp = offer_timestamp array\<rparr>, self1))"

text \<open>Python's \<open>range(n)\<close>: the integers from 0 up to \<open>n - 1\<close>, none when \<open>n \<le> 0\<close>.\<close>

definition range_py :: "int \<Rightarrow> int list" where
  "range_py n = [0..n - 1]"

text \<open>
  The list comprehension of \<open>get_orders\<close> calls \<open>get_order\<close> for each id in turn, each
  call seeing the cache the earlier ones left.
\<close>

fun get_order_each :: "ledger \<Rightarrow> market \<Rightarrow> int list \<Rightarrow> order option list \<times> market" where
  "get_order_each L self [] = ([], self)"
| "get_order_each L self (oid # oids) =
     (let (r, self1) = get_order L self oid;
          (rs, self2) = get_order_each L self1 oids
      in (r # rs, self2))"

definition get_orders :: "ledger \<Rightarrow> market \<Rightarrow> order list \<times> market" where
  "get_orders L self =
     (let (n, self0) = get_last_order_id L self;
          (orders, self1) =
             get_order_each L self0 (map (\<lambda>order_id. order_id + 1) (range_py n))
      in (map the (filter (\<lambda>ord. ord \<noteq> None) orders), self1))"

subsection \<open>Building transactions\<close>

text \<open>
  A \<open>Transact\<close> is the unsent transaction handle: the contract address, the name of
  the contract function and its parameters. \<open>int_to_bytes32\<close> of \<open>pymaker.util\<close> is kept
  as the constructor \<open>ArgBytes32\<close> around the integer it encodes.
\<close>

datatype arg = ArgAddress string | ArgInt int | ArgBytes32 int | ArgBool bool

record transact =
  transact_address :: address
  function_name :: string
  parameters :: "arg list"

text \<open>\<open>SimpleMarket.make\<close>, \<open>bump\<close>, \<open>take\<close> and \<open>kill\<close>.\<close>

definition simple_make :: "market \<Rightarrow> address \<Rightarrow> wad \<Rightarrow> address \<Rightarrow> wad \<Rightarrow> error + transact" where
  "simple_make self pt pa bt ba =
     (if \<not> pa > 0 then Inl AssertionError
      else if \<not> ba > 0 then Inl AssertionError
      else Inr \<lparr>transact_address = address self, function_name = ''make'',
                parameters = [ArgAddress (address_str pt), ArgAddress (address_str bt),
                              ArgInt pa, ArgInt ba]\<rparr>)"

definition bump :: "market \<Rightarrow> int \<Rightarrow> transact" where
  "bump self oid =
     \<lparr>transact_address = address self, function_name = ''bump'',
      parameters = [ArgBytes32 oid]\<rparr>"

definition take :: "market \<Rightarrow> int \<Rightarrow> wad \<Rightarrow> transact" where
  "take self oid quantity =
     \<lparr>transact_address = address self, function_name = ''take'',
      parameters = [ArgBytes32 oid, ArgInt quantity]\<rparr>"

definition kill :: "market \<Rightarrow> int \<Rightarrow> transact" where
  "kill self oid =
     \<lparr>transact_address = address self, function_name = ''kill'',
      parameters = [ArgBytes32 oid]\<rparr>"

text \<open>
  The flag accessors and the remaining transaction builders of \<open>MatchingMarket\<close>.
\<close>

definition is_buy_enabled :: "ledger \<Rightarrow> market \<Rightarrow> bool \<times> market" where
  "is_buy_enabled L self =
     (buyEnabled L, self\<lparr>contract_calls := contract_calls self @ [CallBuyEnabled]\<rparr>)"

definition set_buy_enabled :: "market \<Rightarrow> bool \<Rightarrow> transact" where
  "set_buy_enabled self buy_enabled =
     \<lparr>transact_address = address self, function_name = ''setBuyEnabled'',
      parameters = [ArgBool buy_enabled]\<rparr>"

definition is_matching_enabled :: "ledger \<Rightarrow> market \<Rightarrow> bool \<times> market" where
  "is_matching_enabled L self =
     (matchingEnabled L,
      self\<lparr>contract_calls := contract_calls self @ [CallMatchingEnabled]\<rparr>)"

definition set_matching_enabled :: "market \<Rightarrow> bool \<Rightarrow> transact" where
  "set_matching_enabled self matching_enabled =
     \<lparr>transact_address = address self, function_name = ''setMatchingEnabled'',
      parameters = [ArgBool matching_enabled]\<rparr>"

definition add_token_pair_whitelist :: "market \<Rightarrow> address \<Rightarrow> address \<Rightarrow> transact" where
  "add_token_pair_whitelist self base_token quote_token =
     \<lparr>transact_address = address self, function_name = ''addTokenPairWhitelist'',
      parameters = [ArgAddress (address_str base_token),
                    ArgAddress (address_str quote_token)]\<rparr>"

subsection \<open>The position estimator of \<open>MatchingMarket\<close>\<close>

text \<open>
  The filter's predicate. Python's \<open>and\<close> evaluates the price comparison only for an
  order of the same token pair; the comparison divides twice, the order's amounts
  first, and either division may raise.
\<close>

definition qualifies :: "address \<Rightarrow> wad \<Rightarrow> address \<Rightarrow> wad \<Rightarrow> order \<Rightarrow> error + bool" where
  "qualifies pt pa bt ba ord =
     (if pay_token ord = pt \<and> buy_token ord = bt
      then (case wad_div (pay_amount ord) (buy_amount ord) of
              Inl e \<Rightarrow> Inl e
            | Inr p \<Rightarrow> (case wad_div pa ba of
                          Inl e \<Rightarrow> Inl e
                        | Inr q \<Rightarrow> Inr (p \<ge> q)))
      else Inr False)"

text \<open>\<open>filter\<close> with a predicate that may raise: the first error ends the traversal.\<close>

fun filter_raising :: "('a \<Rightarrow> error + bool) \<Rightarrow> 'a list \<Rightarrow> error + 'a list" where
  "filter_raising p [] = Inr []"
| "filter_raising p (x # xs) =
     (case p x of
        Inl e \<Rightarrow> Inl e
      | Inr b \<Rightarrow> (case filter_raising p xs of
                    Inl e \<Rightarrow> Inl e
                  | Inr ys \<Rightarrow> Inr (if b then x # ys else ys)))"

text \<open>The keys \<open>sorted\<close> computes, one per element, before it sorts.\<close>

fun map_raising :: "('a \<Rightarrow> error + 'b) \<Rightarrow> 'a list \<Rightarrow> error + 'b list" where
  "map_raising f [] = Inr []"
| "map_raising f (x # xs) =
     (case f x of
        Inl e \<Rightarrow> Inl e
      | Inr y \<Rightarrow> (case map_raising f xs of
                    Inl e \<Rightarrow> Inl e
                  | Inr ys \<Rightarrow> Inr (y # ys)))"

text \<open>
  \<open>sorted(orders, key=...)\<close>: the keys are computed, the elements are sorted by key with
  a stable sort, and the keys are dropped.
\<close>

definition sorted_by_price :: "order list \<Rightarrow> error + order list" where
  "sorted_by_price orders =
     (case map_raising (\<lambda>ord. wad_div (pay_amount ord) (buy_amount ord)) orders of
        Inl e \<Rightarrow> Inl e
      | Inr keys \<Rightarrow> Inr (map snd (sort_key fst (zip keys orders))))"

definition position ::
  "ledger \<Rightarrow> market \<Rightarrow> address \<Rightarrow> wad \<Rightarrow> address \<Rightarrow> wad \<Rightarrow> (error + int) \<times> market" where
  "position L self pt pa bt ba =
     (let (all_orders, self1) = get_orders L self
      in case filter_raising (qualifies pt pa bt ba) all_orders of
           Inl e \<Rightarrow> (Inl e, self1)
         | Inr orders \<Rightarrow>
             (case sorted_by_price orders of
                Inl e \<Rightarrow> (Inl e, self1)
              | Inr sorted_orders \<Rightarrow>
                  (Inr (if length sorted_orders > 0 then order_id (sorted_orders ! 0) else 0),
                   self1)))"

text \<open>\<open>MatchingMarket.make\<close>; \<open>pos\<close> is \<open>None\<close> when the caller omits the hint.\<close>

definition matching_make ::
  "ledger \<Rightarrow> market \<Rightarrow> address \<Rightarrow> wad \<Rightarrow> address \<Rightarrow> wad \<Rightarrow> int option
     \<Rightarrow> (error + transact) \<times> market" where
  "matching_make L self pt pa bt ba pos =
     (if \<not> pa > 0 then (Inl AssertionError, self)
      else if \<not> ba > 0 then (Inl AssertionError, self)
      else
        let (r, self1) =
              (case pos of
                 None \<Rightarrow> position L self pt pa bt ba
               | Some p \<Rightarrow> (if \<not> p \<ge> 0 then Inl AssertionError else Inr p, self))
        in case r of
             Inl e \<Rightarrow> (Inl e, self1)
           | Inr p \<Rightarrow>
               (Inr \<lparr>transact_address = address self1, function_name = ''offer'',
                     parameters = [ArgInt pa, ArgAddress (address_str pt),
                                   ArgInt ba, ArgAddress (address_str bt), ArgInt p]\<rparr>,
                self1))"

subsection \<open>Sequences of client operations\<close>

text \<open>
  The operations of the client that read or write its state, as commands; each runs
  against the ledger as it is when the call is made. \<open>exec\<close> gives the state a call
  leaves, whether it returns or raises.
\<close>

datatype op =
    GetLastOrderId
  | GetOrder int
  | GetOrders
  | Make address wad address wad
  | Bump int
  | Take int wad
  | Kill int
  | IsBuyEnabled
  | SetBuyEnabled bool
  | IsMatchingEnabled
  | SetMatchingEnabled bool
  | AddTokenPairWhitelist address address
  | MatchingMake address wad address wad "int option"
  | Position address wad address wad

fun exec :: "ledger \<Rightarrow> op \<Rightarrow> market \<Rightarrow> market" where
  "exec L GetLastOrderId self = snd (get_last_order_id L self)"
| "exec L (GetOrder oid) self = snd (get_order L self oid)"
| "exec L GetOrders self = snd (get_orders L self)"
| "exec L (Make pt pa bt ba) self = self"
| "exec L (Bump oid) self = self"
| "exec L (Take oid quantity) self = self"
| "exec L (Kill oid) self = self"
| "exec L IsBuyEnabled self = snd (is_buy_enabled L self)"
| "exec L (SetBuyEnabled buy_enabled) self = self"
| "exec L IsMatchingEnabled self = snd (is_matching_enabled L self)"
| "exec L (SetMatchingEnabled matching_enabled) self = self"
| "exec L (AddTokenPairWhitelist base_token quote_token) self = self"
| "exec L (MatchingMake pt pa bt ba pos) self = snd (matching_make L self pt pa bt ba pos)"
| "exec L (Position pt pa bt ba) self = snd (position L self pt pa bt ba)"

fun run :: "(ledger \<times> op) list \<Rightarrow> market \<Rightarrow> market" where
  "run [] self = self"
| "run ((L, c) # cs) self = run cs (exec L c self)"

subsection \<open>Notions used in the statements\<close>

text \<open>The \<open>Order\<close> that \<open>get_order\<close> builds from an active ledger slot.\<close>

definition order_of :: "address \<Rightarrow> int \<Rightarrow> offer \<Rightarrow> order" where
  "order_of a oid array =
     \<lparr>market_address = a, order_id = oid,
      maker = Address (offer_owner array),
      pay_token = Address (offer_pay_gem array),
      pay_amount = offer_pay_amt array,
      buy_token = Address (offer_buy_gem array),
      buy_amount = offer_buy_amt array,
      timestamp = offer_timestamp array\<rparr>"

text \<open>The sort key of an order whose price is defined: the raw value of the quotient.\<close>

definition raw_price :: "order \<Rightarrow> int" where
  "raw_price ord = (case sell_to_buy_price ord of Inl e \<Rightarrow> 0 | Inr k \<Rightarrow> k)"

text \<open>
  A small order book for the concrete checks: four active orders of one token pair at
  the prices 3, 2, 2 and 1 under the ids 1, 2, 4 and 5; every other slot is inactive.
\<close>

definition example_offer :: "int \<Rightarrow> int \<Rightarrow> bool \<Rightarrow> offer" where
  "example_offer pay buy act =
     \<lparr>offer_pay_amt = pay, offer_pay_gem = ''DAI'', offer_buy_amt = buy,
      offer_buy_gem = ''WETH'', offer_owner = ''maker'', offer_active = act,
      offer_timestamp = 0\<rparr>"

definition example_book :: ledger where
  "example_book =
     \<lparr>last_offer_id = 5,
      offers = (\<lambda>i. if i = 1 then example_offer 3 1 True
                    else if i = 2 then example_offer 2 1 True
                    else if i = 4 then example_offer 4 2 True
                    else if i = 5 then example_offer 1 1 True
                    else example_offer 0 0 False),
      buyEnabled = True, matchingEnabled = True\<rparr>"

definition example_market :: market where
  "example_market = init_market (Address ''OTC'')"

text \<open>
  A ledger that reports every slot as active, also the slot 3 that \<open>example_book\<close>
  reports as inactive: what a ledger that recycled ids would show.
\<close>

definition revived_book :: ledger where
  "revived_book =
     \<lparr>last_offer_id = 5, offers = (\<lambda>i. example_offer 1 1 True),
      buyEnabled = True, matchingEnabled = True\<rparr>"

section \<open>Properties of the order repository\<close>

lemma get_order_fst:
  "fst (get_order L st i) =
     (if i \<in> none_orders st \<or> \<not> offer_active (offers L i) then None
      else Some (order_of (address st) i (offers L i)))"
  by (simp add: get_order_def order_of_def Let_def)

lemma get_order_address: "address (snd (get_order L st i)) = address st"
  by (simp add: get_order_def Let_def)

lemma get_order_none_orders:
  "none_orders (snd (get_order L st i)) =
     (if offer_active (offers L i) then none_orders st else insert i (none_orders st))"
  by (auto simp add: get_order_def Let_def)

lemma get_order_calls:
  "contract_calls (snd (get_order L st i)) =
     (if i \<in> none_orders st then contract_calls st else contract_calls st @ [CallOffers i])"
  by (simp add: get_order_def Let_def)

lemma get_order_each_fst:
  "fst (get_order_each L st ids) =
     map (\<lambda>i. if i \<in> none_orders st \<or> \<not> offer_active (offers L i) then None
              else Some (order_of (address st) i (offers L i))) ids"
proof (induction ids arbitrary: st)
  case Nil
  show ?case by simp
next
  case (Cons i ids)
  obtain r st1 where g: "get_order L st i = (r, st1)" by (cases "get_order L st i")
  have r: "r = (if i \<in> none_orders st \<or> \<not> offer_active (offers L i) then None
              else Some (order_of (address st) i (offers L i)))"
    using get_order_fst [of L st i] g by simp
  have a: "address st1 = address st" using get_order_address [of L st i] g by simp
  have n: "none_orders st1 =
     (if offer_active (offers L i) then none_orders st else insert i (none_orders st))"
    using get_order_none_orders [of L st i] g by simp
  have "fst (get_order_each L st (i # ids)) = r # fst (get_order_each L st1 ids)"
    using g by (simp add: split_beta)
  also have "fst (get_order_each L st1 ids) =
     map (\<lambda>j. if j \<in> none_orders st \<or> \<not> offer_active (offers L j) then None
              else Some (order_of (address st) j (offers L j))) ids"
    unfolding Cons.IH [of st1] a n by (rule map_cong) auto
  finally show ?case using r by simp
qed

lemma get_order_each_address:
  "address (snd (get_order_each L st ids)) = address st"
proof (induction ids arbitrary: st)
  case Nil
  show ?case by simp
next
  case (Cons i ids)
  show ?case using Cons.IH [of "snd (get_order L st i)"]
    by (simp add: split_beta get_order_address)
qed

lemma get_order_each_none_orders:
  "none_orders (snd (get_order_each L st ids)) =
     none_orders st \<union> {i \<in> set ids. \<not> offer_active (offers L i)}"
proof (induction ids arbitrary: st)
  case Nil
  show ?case by simp
next
  case (Cons i ids)
  show ?case using Cons.IH [of "snd (get_order L st i)"]
    by (auto simp add: split_beta get_order_none_orders)
qed

lemma get_order_each_calls:
  "distinct ids \<Longrightarrow>
   contract_calls (snd (get_order_each L st ids)) =
     contract_calls st @ map CallOffers (filter (\<lambda>i. i \<notin> none_orders st) ids)"
proof (induction ids arbitrary: st)
  case Nil
  show ?case by simp
next
  case (Cons i ids)
  let ?st1 = "snd (get_order L st i)"
  have d: "distinct ids" and ni: "i \<notin> set ids" using Cons.prems by auto
  have f: "filter (\<lambda>j. j \<notin> none_orders ?st1) ids = filter (\<lambda>j. j \<notin> none_orders st) ids"
    using ni by (intro filter_cong) (auto simp add: get_order_none_orders)
  show ?case using Cons.IH [OF d, of ?st1] f
    by (simp add: split_beta get_order_calls)
qed

lemma map_Suc_upto: "map (\<lambda>k. k + 1) [i..j] = [i + 1..j + 1]"
proof (induction i j rule: upto.induct)
  case (1 i j)
  show ?case
  proof (cases "i \<le> j")
    case True
    then show ?thesis using 1 by (simp add: upto_rec1 [of i j] upto_rec1 [of "i + 1" "j + 1"])
  next
    case False
    then show ?thesis by simp
  qed
qed

lemma order_ids_upto: "map (\<lambda>order_id. order_id + 1) (range_py n) = [1..n]"
  by (simp add: range_py_def map_Suc_upto)

lemma map_the_filter_Some:
  "map the (filter (\<lambda>r. r \<noteq> None) (map (\<lambda>i. if P i then None else Some (g i)) ids)) =
     map g (filter (\<lambda>i. \<not> P i) ids)"
  by (induction ids) auto

lemma get_orders_fst:
  "fst (get_orders L st) =
     map (\<lambda>i. order_of (address st) i (offers L i))
       (filter (\<lambda>i. \<not> (i \<in> none_orders st \<or> \<not> offer_active (offers L i)))
          [1..last_offer_id L])"
proof -
  let ?st0 = "st\<lparr>contract_calls := contract_calls st @ [CallLastOfferId]\<rparr>"
  have "fst (get_orders L st) =
     map the (filter (\<lambda>r. r \<noteq> None) (fst (get_order_each L ?st0 [1..last_offer_id L])))"
    by (simp add: get_orders_def get_last_order_id_def split_beta order_ids_upto)
  also have "fst (get_order_each L ?st0 [1..last_offer_id L]) =
     map (\<lambda>i. if i \<in> none_orders st \<or> \<not> offer_active (offers L i) then None
              else Some (order_of (address st) i (offers L i))) [1..last_offer_id L]"
    unfolding get_order_each_fst by simp
  finally show ?thesis
    unfolding map_the_filter_Some .
qed

lemma get_orders_none_orders:
  "none_orders (snd (get_orders L st)) =
     none_orders st \<union> {i \<in> {1..last_offer_id L}. \<not> offer_active (offers L i)}"
  by (simp add: get_orders_def get_last_order_id_def split_beta order_ids_upto
      get_order_each_none_orders)

lemma get_orders_address: "address (snd (get_orders L st)) = address st"
  by (simp add: get_orders_def get_last_order_id_def split_beta get_order_each_address)

lemma get_orders_calls:
  "contract_calls (snd (get_orders L st)) =
     contract_calls st @ CallLastOfferId #
       map CallOffers (filter (\<lambda>i. i \<notin> none_orders st) [1..last_offer_id L])"
  by (simp add: get_orders_def get_last_order_id_def split_beta order_ids_upto
      get_order_each_calls)

section \<open>Properties of the filter and the sort\<close>

lemma filter_raising_Inr:
  "filter_raising p xs = Inr ys \<Longrightarrow> ys = filter (\<lambda>x. p x = Inr True) xs"
  by (induction xs arbitrary: ys) (auto split: sum.splits if_splits)

lemma filter_raising_total:
  "(\<And>x. x \<in> set xs \<Longrightarrow> \<exists>b. p x = Inr b) \<Longrightarrow>
   filter_raising p xs = Inr (filter (\<lambda>x. p x = Inr True) xs)"
proof (induction xs)
  case Nil
  show ?case by simp
next
  case (Cons x xs)
  obtain b where b: "p x = Inr b" using Cons.prems [of x] by auto
  have "filter_raising p xs = Inr (filter (\<lambda>x. p x = Inr True) xs)"
    using Cons.IH Cons.prems by simp
  then show ?case using b by simp
qed

lemma map_raising_total:
  "(\<And>x. x \<in> set xs \<Longrightarrow> f x = Inr (g x)) \<Longrightarrow> map_raising f xs = Inr (map g xs)"
  by (induction xs) auto

lemma qualifies_True_price:
  "qualifies pt pa bt ba ord = Inr True \<Longrightarrow>
   wad_div (pay_amount ord) (buy_amount ord) = Inr (raw_price ord)"
  by (auto simp add: qualifies_def raw_price_def sell_to_buy_price_def
      split: if_splits sum.splits)

lemma insort_key_map_pair:
  "insort_key fst (g x, x) (map (\<lambda>y. (g y, y)) ys) = map (\<lambda>y. (g y, y)) (insort_key g x ys)"
  by (induction ys) auto

lemma sort_key_zip_keys:
  "map snd (sort_key fst (zip (map g xs) xs)) = sort_key g xs"
proof -
  have "sort_key fst (map (\<lambda>y. (g y, y)) xs) = map (\<lambda>y. (g y, y)) (sort_key g xs)"
    by (induction xs) (simp_all add: insort_key_map_pair)
  moreover have "zip (map g xs) xs = map (\<lambda>y. (g y, y)) xs"
    by (induction xs) auto
  ultimately show ?thesis by (simp add: comp_def)
qed

lemma sort_key_hd:
  assumes "xs \<noteq> []"
  shows "hd (sort_key f xs) \<in> set xs"
    and "\<And>x. x \<in> set xs \<Longrightarrow> f (hd (sort_key f xs)) \<le> f x"
    and "hd (sort_key f xs) = hd (filter (\<lambda>y. f y = f (hd (sort_key f xs))) xs)"
proof -
  have len: "length (sort_key f xs) = length xs" by (rule length_sort)
  obtain h t where s: "sort_key f xs = h # t"
    using assms len by (cases "sort_key f xs") auto
  have hd: "hd (sort_key f xs) = h" by (simp add: s)
  have "h \<in> set (sort_key f xs)" by (simp add: s)
  then have mem: "h \<in> set xs" by (simp only: set_sort)
  have "sorted (map f (sort_key f xs))" by (rule sorted_sort_key)
  then have srt: "\<forall>x \<in> set t. f h \<le> f x" by (simp add: s)
  have le: "f h \<le> f x" if "x \<in> set xs" for x
  proof -
    have "x \<in> set (h # t)" using that set_sort [of f xs] by (simp only: s)
    then show ?thesis using srt by auto
  qed
  have "filter (\<lambda>y. f y = f h) (sort_key f xs) = filter (\<lambda>y. f y = f h) xs"
    by (rule sort_key_stable)
  then have "filter (\<lambda>y. f y = f h) xs = h # filter (\<lambda>y. f y = f h) t"
    by (simp add: s)
  then have st: "hd (filter (\<lambda>y. f y = f h) xs) = h" by simp
  show "hd (sort_key f xs) \<in> set xs" using mem hd by simp
  show "\<And>x. x \<in> set xs \<Longrightarrow> f (hd (sort_key f xs)) \<le> f x" using le hd by simp
  show "hd (sort_key f xs) = hd (filter (\<lambda>y. f y = f (hd (sort_key f xs))) xs)"
    using st hd by simp
qed

lemma sorted_by_price_qualified:
  assumes "\<And>x. x \<in> set xs \<Longrightarrow> qualifies pt pa bt ba x = Inr True"
  shows "sorted_by_price xs = Inr (sort_key raw_price xs)"
proof -
  have "map_raising (\<lambda>ord. wad_div (pay_amount ord) (buy_amount ord)) xs =
          Inr (map raw_price xs)"
    by (rule map_raising_total) (rule qualifies_True_price, rule assms)
  then show ?thesis by (simp add: sorted_by_price_def sort_key_zip_keys)
qed

lemma position_fst:
  assumes "filter_raising (qualifies pt pa bt ba) (fst (get_orders L st)) = Inr orders"
  shows "fst (position L st pt pa bt ba) =
           Inr (if orders = [] then 0 else order_id (hd (sort_key raw_price orders)))"
proof -
  have o: "orders = filter (\<lambda>x. qualifies pt pa bt ba x = Inr True) (fst (get_orders L st))"
    using assms by (rule filter_raising_Inr)
  have s: "sorted_by_price orders = Inr (sort_key raw_price orders)"
    by (rule sorted_by_price_qualified [of _ pt pa bt ba]) (simp add: o)
  have h: "sort_key raw_price orders ! 0 = hd (sort_key raw_price orders)" if "orders \<noteq> []"
  proof -
    have "sort_key raw_price orders \<noteq> []" using that
      by (metis length_sort length_0_conv)
    then show ?thesis by (simp add: hd_conv_nth)
  qed
  have "position L st pt pa bt ba =
     (Inr (if length (sort_key raw_price orders) > 0 then order_id (sort_key raw_price orders ! 0) else 0),
      snd (get_orders L st))"
    by (simp add: position_def split_beta Let_def assms s)
  then show ?thesis using h by simp
qed

lemma position_fst_error:
  assumes "filter_raising (qualifies pt pa bt ba) (fst (get_orders L st)) = Inl e"
  shows "fst (position L st pt pa bt ba) = Inl e"
  using assms by (simp add: position_def split_beta)

lemma position_snd: "snd (position L st pt pa bt ba) = snd (get_orders L st)"
  unfolding position_def split_beta Let_def
  by (cases "filter_raising (qualifies pt pa bt ba) (fst (get_orders L st))";
      cases "sorted_by_price (projr (filter_raising (qualifies pt pa bt ba) (fst (get_orders L st))))")
     simp_all

section \<open>Order identity\<close>

text \<open>
  Claim C7. Two orders compare equal exactly when their market addresses are equal and
  their order ids are equal; the other fields play no part. In particular two orders
  with the same id from markets at different addresses are unequal, and the orders
  that \<open>get_order\<close> returns for one id on two market clients are equal exactly when
  the two clients have the same address.
\<close>

theorem order_eq_market_and_id:
  "(order_eq a b \<longleftrightarrow> market_address a = market_address b \<and> order_id a = order_id b) \<and>
   (market_address a \<noteq> market_address b \<longrightarrow> order_id a = order_id b \<longrightarrow> \<not> order_eq a b) \<and>
   (fst (get_order L m1 oid) = Some a \<longrightarrow> fst (get_order L' m2 oid) = Some b \<longrightarrow>
      (order_eq a b \<longleftrightarrow> address m1 = address m2))"
proof -
  have "order_eq a b \<longleftrightarrow> address m1 = address m2"
    if "fst (get_order L m1 oid) = Some a" and "fst (get_order L' m2 oid) = Some b"
    using that by (auto simp add: get_order_fst order_of_def order_eq_def split: if_splits)
  then show ?thesis by (auto simp add: order_eq_def)
qed

theorem order_eq_market_and_id_witness:
  "order_eq (order_of (Address ''OTC'') 2 (example_offer 2 1 True))
            (order_of (Address ''OTC'') 2 (example_offer 7 9 True)) \<and>
   \<not> order_eq (order_of (Address ''OTC'') 2 (example_offer 2 1 True))
              (order_of (Address ''OTC2'') 2 (example_offer 2 1 True)) \<and>
   \<not> order_eq (the (fst (get_order example_book (init_market (Address ''OTC'')) 2)))
              (the (fst (get_order example_book (init_market (Address ''OTC2'')) 2)))"
proof -
  have a: "fst (get_order example_book (init_market (Address ''OTC'')) 2) =
             Some (the (fst (get_order example_book (init_market (Address ''OTC'')) 2)))"
    by (simp add: get_order_def init_market_def example_book_def example_offer_def)
  have b: "fst (get_order example_book (init_market (Address ''OTC2'')) 2) =
             Some (the (fst (get_order example_book (init_market (Address ''OTC2'')) 2)))"
    by (simp add: get_order_def init_market_def example_book_def example_offer_def)
  have c: "address (init_market (Address ''OTC'')) \<noteq> address (init_market (Address ''OTC2''))"
    by (simp add: init_market_def)
  have 1: "order_eq (order_of (Address ''OTC'') 2 (example_offer 2 1 True))
            (order_of (Address ''OTC'') 2 (example_offer 7 9 True))"
    using order_eq_market_and_id
      [of "order_of (Address ''OTC'') 2 (example_offer 2 1 True)"
          "order_of (Address ''OTC'') 2 (example_offer 7 9 True)"]
    by (simp add: order_of_def)
  have 2: "\<not> order_eq (order_of (Address ''OTC'') 2 (example_offer 2 1 True))
              (order_of (Address ''OTC2'') 2 (example_offer 2 1 True))"
    using order_eq_market_and_id
      [of "order_of (Address ''OTC'') 2 (example_offer 2 1 True)"
          "order_of (Address ''OTC2'') 2 (example_offer 2 1 True)"]
    by (simp add: order_of_def)
  have 3: "\<not> order_eq (the (fst (get_order example_book (init_market (Address ''OTC'')) 2)))
              (the (fst (get_order example_book (init_market (Address ''OTC2'')) 2)))"
    using order_eq_market_and_id
      [of "the (fst (get_order example_book (init_market (Address ''OTC'')) 2))"
          "the (fst (get_order example_book (init_market (Address ''OTC2'')) 2))"
          example_book "init_market (Address ''OTC'')" 2
          example_book "init_market (Address ''OTC2'')"] a b c
    by blast
  show ?thesis using 1 2 3 by blast
qed

section \<open>Building the create-order transaction\<close>

lemma qualifies_defined:
  "buy_amount ord \<noteq> 0 \<Longrightarrow> ba \<noteq> 0 \<Longrightarrow> \<exists>b. qualifies pt pa bt ba ord = Inr b"
  by (auto simp add: qualifies_def wad_div_def)

lemma qualifies_other_pair:
  "\<not> (pay_token ord = pt \<and> buy_token ord = bt) \<Longrightarrow> qualifies pt pa bt ba ord = Inr False"
  by (auto simp add: qualifies_def)

lemma position_returns:
  assumes "ba \<noteq> 0" and "\<And>ord. ord \<in> set (fst (get_orders L st)) \<Longrightarrow> buy_amount ord \<noteq> 0"
  shows "\<exists>p. fst (position L st pt pa bt ba) = Inr p"
proof -
  have "filter_raising (qualifies pt pa bt ba) (fst (get_orders L st)) =
          Inr (filter (\<lambda>x. qualifies pt pa bt ba x = Inr True) (fst (get_orders L st)))"
    by (rule filter_raising_total) (simp add: qualifies_defined assms)
  from position_fst [OF this] show ?thesis by blast
qed

lemma position_address: "address (snd (position L st pt pa bt ba)) = address st"
  by (simp add: position_snd get_orders_address)

lemma matching_make_None:
  assumes "0 < pa" and "0 < ba"
  shows "matching_make L self pt pa bt ba None =
     (case fst (position L self pt pa bt ba) of
        Inl e \<Rightarrow> Inl e
      | Inr q \<Rightarrow>
          Inr \<lparr>transact_address = address self, function_name = ''offer'',
                parameters = [ArgInt pa, ArgAddress (address_str pt),
                              ArgInt ba, ArgAddress (address_str bt), ArgInt q]\<rparr>,
      snd (position L self pt pa bt ba))"
proof (cases "fst (position L self pt pa bt ba)")
  case (Inl e)
  then show ?thesis using assms
    by (simp add: matching_make_def split_beta)
next
  case (Inr q)
  then show ?thesis using assms position_address [of L self pt pa bt ba]
    by (simp add: matching_make_def split_beta)
qed

lemma matching_make_Some:
  assumes "0 < pa" and "0 < ba" and "0 \<le> p"
  shows "matching_make L self pt pa bt ba (Some p) =
     (Inr \<lparr>transact_address = address self, function_name = ''offer'',
           parameters = [ArgInt pa, ArgAddress (address_str pt),
                         ArgInt ba, ArgAddress (address_str bt), ArgInt p]\<rparr>, self)"
  using assms by (simp add: matching_make_def)

lemma matching_make_negative_hint:
  "p < 0 \<Longrightarrow> matching_make L self pt pa bt ba (Some p) = (Inl AssertionError, self)"
  by (simp add: matching_make_def)

lemma matching_make_zero:
  "pa = 0 \<or> ba = 0 \<Longrightarrow> matching_make L self pt pa bt ba pos = (Inl AssertionError, self)"
  by (auto simp add: matching_make_def)

text \<open>
  Claim C5. For every pair of token addresses, \<open>make\<close> raises the assertion error
  when the pay amount is zero or the buy amount is zero, for the simple market and for
  the matching market alike; the matching market's client state is returned as it was,
  so no remote read has been issued, and no amount is altered. When both amounts are
  strictly positive, the simple market's \<open>make\<close> returns the transaction handle with
  the amounts as given; so does the matching market's \<open>make\<close> with a hint that is not
  negative, and with the hint omitted when every active order has a positive buy
  amount, so that every price is defined.
\<close>

theorem make_rejects_zero_amounts:
  "(pa = 0 \<or> ba = 0 \<longrightarrow>
      simple_make self pt pa bt ba = Inl AssertionError \<and>
      matching_make L self pt pa bt ba pos = (Inl AssertionError, self)) \<and>
   (0 < pa \<and> 0 < ba \<longrightarrow>
      simple_make self pt pa bt ba =
        Inr \<lparr>transact_address = address self, function_name = ''make'',
              parameters = [ArgAddress (address_str pt), ArgAddress (address_str bt),
                            ArgInt pa, ArgInt ba]\<rparr> \<and>
      (\<forall>p. 0 \<le> p \<longrightarrow>
         matching_make L self pt pa bt ba (Some p) =
           (Inr \<lparr>transact_address = address self, function_name = ''offer'',
                 parameters = [ArgInt pa, ArgAddress (address_str pt),
                               ArgInt ba, ArgAddress (address_str bt), ArgInt p]\<rparr>, self)) \<and>
      ((\<forall>ord \<in> set (fst (get_orders L self)). 0 < buy_amount ord) \<longrightarrow>
         (\<exists>p. matching_make L self pt pa bt ba None =
           (Inr \<lparr>transact_address = address self, function_name = ''offer'',
                 parameters = [ArgInt pa, ArgAddress (address_str pt),
                               ArgInt ba, ArgAddress (address_str bt), ArgInt p]\<rparr>,
            snd (get_orders L self)))))"
proof (intro conjI impI allI)
  assume "pa = 0 \<or> ba = 0"
  then show "simple_make self pt pa bt ba = Inl AssertionError"
    by (auto simp add: simple_make_def)
next
  assume "pa = 0 \<or> ba = 0"
  then show "matching_make L self pt pa bt ba pos = (Inl AssertionError, self)"
    by (rule matching_make_zero)
next
  assume "0 < pa \<and> 0 < ba"
  then show "simple_make self pt pa bt ba =
        Inr \<lparr>transact_address = address self, function_name = ''make'',
              parameters = [ArgAddress (address_str pt), ArgAddress (address_str bt),
                            ArgInt pa, ArgInt ba]\<rparr>"
    by (simp add: simple_make_def)
next
  fix p :: int
  assume "0 < pa \<and> 0 < ba" and "0 \<le> p"
  then show "matching_make L self pt pa bt ba (Some p) =
           (Inr \<lparr>transact_address = address self, function_name = ''offer'',
                 parameters = [ArgInt pa, ArgAddress (address_str pt),
                               ArgInt ba, ArgAddress (address_str bt), ArgInt p]\<rparr>, self)"
    by (simp add: matching_make_Some)
next
  assume pos: "0 < pa \<and> 0 < ba"
    and valid: "\<forall>ord \<in> set (fst (get_orders L self)). 0 < buy_amount ord"
  have "\<exists>p. fst (position L self pt pa bt ba) = Inr p"
    by (rule position_returns) (use pos valid in auto)
  then obtain p where p: "fst (position L self pt pa bt ba) = Inr p" by blast
  have "matching_make L self pt pa bt ba None =
           (Inr \<lparr>transact_address = address self, function_name = ''offer'',
                 parameters = [ArgInt pa, ArgAddress (address_str pt),
                               ArgInt ba, ArgAddress (address_str bt), ArgInt p]\<rparr>,
            snd (get_orders L self))"
    using pos p by (simp add: matching_make_None position_snd)
  then show "\<exists>p. matching_make L self pt pa bt ba None =
           (Inr \<lparr>transact_address = address self, function_name = ''offer'',
                 parameters = [ArgInt pa, ArgAddress (address_str pt),
                               ArgInt ba, ArgAddress (address_str bt), ArgInt p]\<rparr>,
            snd (get_orders L self))" by blast
qed

theorem make_rejects_zero_amounts_witness:
  "simple_make example_market (Address ''DAI'') 0 (Address ''WETH'') 1 = Inl AssertionError \<and>
   matching_make example_book example_market (Address ''DAI'') 0 (Address ''WETH'') 1 None =
     (Inl AssertionError, example_market) \<and>
   simple_make example_market (Address ''DAI'') 2 (Address ''WETH'') 1 =
     Inr \<lparr>transact_address = address example_market, function_name = ''make'',
           parameters = [ArgAddress ''DAI'', ArgAddress ''WETH'', ArgInt 2, ArgInt 1]\<rparr> \<and>
   matching_make example_book example_market (Address ''DAI'') 2 (Address ''WETH'') 1 (Some 7) =
     (Inr \<lparr>transact_address = address example_market, function_name = ''offer'',
           parameters = [ArgInt 2, ArgAddress ''DAI'', ArgInt 1, ArgAddress ''WETH'', ArgInt 7]\<rparr>,
      example_market) \<and>
   (\<exists>p. matching_make example_book example_market (Address ''DAI'') 2 (Address ''WETH'') 1 None =
     (Inr \<lparr>transact_address = address example_market, function_name = ''offer'',
           parameters = [ArgInt 2, ArgAddress ''DAI'', ArgInt 1, ArgAddress ''WETH'', ArgInt p]\<rparr>,
      snd (get_orders example_book example_market)))"
proof -
  have z: "(0::int) = 0 \<or> (1::int) = 0" by simp
  have p: "(0::int) < 2 \<and> (0::int) < 1" by simp
  have q: "(0::int) \<le> 7" by simp
  have v: "\<forall>ord \<in> set (fst (get_orders example_book example_market)). 0 < buy_amount ord"
    by code_simp
  show ?thesis
    using z p q v
      make_rejects_zero_amounts [of 0 1 example_market "Address ''DAI''" "Address ''WETH''"
        example_book None]
      make_rejects_zero_amounts [of 2 1 example_market "Address ''DAI''" "Address ''WETH''"
        example_book None]
    by simp
qed

text \<open>
  Claim C10. For the matching market's \<open>make\<close>, a negative hint raises the assertion
  error and leaves the client state as it was, whatever the amounts; with positive
  amounts and the hint omitted, the outcome is that of \<open>position\<close> on the same
  arguments: its error, or the handle built with the hint it computed, and the state it
  left; with a hint that is not negative the handle carries that hint.
\<close>

theorem matching_make_position_hint:
  "(p < 0 \<longrightarrow> matching_make L self pt pa bt ba (Some p) = (Inl AssertionError, self)) \<and>
   (0 < pa \<and> 0 < ba \<longrightarrow>
      matching_make L self pt pa bt ba None =
        (case fst (position L self pt pa bt ba) of
           Inl e \<Rightarrow> Inl e
         | Inr q \<Rightarrow>
             Inr \<lparr>transact_address = address self, function_name = ''offer'',
                   parameters = [ArgInt pa, ArgAddress (address_str pt),
                                 ArgInt ba, ArgAddress (address_str bt), ArgInt q]\<rparr>,
         snd (position L self pt pa bt ba))) \<and>
   (0 < pa \<and> 0 < ba \<and> 0 \<le> p \<longrightarrow>
      matching_make L self pt pa bt ba (Some p) =
        (Inr \<lparr>transact_address = address self, function_name = ''offer'',
              parameters = [ArgInt pa, ArgAddress (address_str pt),
                            ArgInt ba, ArgAddress (address_str bt), ArgInt p]\<rparr>, self))"
  using matching_make_negative_hint [of p L self pt pa bt ba]
    matching_make_None [of pa ba L self pt bt]
    matching_make_Some [of pa ba p L self pt bt]
  by blast

theorem matching_make_position_hint_witness:
  "matching_make example_book example_market (Address ''DAI'') 2 (Address ''WETH'') 1 (Some (- 1)) =
     (Inl AssertionError, example_market) \<and>
   matching_make example_book example_market (Address ''DAI'') 2 (Address ''WETH'') 1 None =
     (Inr \<lparr>transact_address = address example_market, function_name = ''offer'',
           parameters = [ArgInt 2, ArgAddress ''DAI'', ArgInt 1, ArgAddress ''WETH'', ArgInt 2]\<rparr>,
      snd (position example_book example_market (Address ''DAI'') 2 (Address ''WETH'') 1)) \<and>
   matching_make example_book example_market (Address ''DAI'') 2 (Address ''WETH'') 1 (Some 4) =
     (Inr \<lparr>transact_address = address example_market, function_name = ''offer'',
           parameters = [ArgInt 2, ArgAddress ''DAI'', ArgInt 1, ArgAddress ''WETH'', ArgInt 4]\<rparr>,
      example_market)"
proof -
  have n: "(- 1::int) < 0" by simp
  have p: "(0::int) < 2 \<and> (0::int) < 1" by simp
  have q: "(0::int) < 2 \<and> (0::int) < 1 \<and> (0::int) \<le> 4" by simp
  have e: "fst (position example_book example_market (Address ''DAI'') 2 (Address ''WETH'') 1) = Inr 2"
    by code_simp
  show ?thesis
    using n p q e
      matching_make_position_hint [of "- 1" example_book example_market "Address ''DAI''" 2
        "Address ''WETH''" 1]
      matching_make_position_hint [of 4 example_book example_market "Address ''DAI''" 2
        "Address ''WETH''" 1]
    by simp
qed

section \<open>Prices of an order\<close>

lemma wad_div_pos:
  "0 < a \<Longrightarrow> 0 < b \<Longrightarrow> wad_div a b = Inr ((a * WAD) div b)"
  by (simp add: wad_div_def)

lemma wad_mul_nonneg:
  "0 \<le> a \<Longrightarrow> 0 \<le> b \<Longrightarrow> wad_mul a b = (a * b) div WAD"
  by (cases "a = 0"; cases "b = 0") (simp_all add: wad_mul_def)

lemma quotients_product_le:
  fixes p b :: int
  assumes "0 < p" and "0 < b"
  shows "((p * WAD) div b) * ((b * WAD) div p) \<le> WAD * WAD"
proof -
  let ?s = "(p * WAD) div b" and ?t = "(b * WAD) div p"
  have W: "0 < WAD" by (simp add: WAD_def)
  have s0: "0 \<le> ?s" using assms W by (simp add: pos_imp_zdiv_nonneg_iff)
  have t0: "0 \<le> ?t" using assms W by (simp add: pos_imp_zdiv_nonneg_iff)
  have s: "?s * b \<le> p * WAD"
  proof -
    have "?s * b + (p * WAD) mod b = p * WAD" by (rule div_mult_mod_eq)
    moreover have "0 \<le> (p * WAD) mod b" using assms by simp
    ultimately show ?thesis by linarith
  qed
  have t: "?t * p \<le> b * WAD"
  proof -
    have "?t * p + (b * WAD) mod p = b * WAD" by (rule div_mult_mod_eq)
    moreover have "0 \<le> (b * WAD) mod p" using assms by simp
    ultimately show ?thesis by linarith
  qed
  have "(?s * b) * (?t * p) \<le> (p * WAD) * (b * WAD)"
  proof (rule mult_mono)
    show "?s * b \<le> p * WAD" by (rule s)
    show "?t * p \<le> b * WAD" by (rule t)
    show "0 \<le> p * WAD" using assms W by simp
    show "0 \<le> ?t * p" using t0 assms by simp
  qed
  then have "(?s * ?t) * (p * b) \<le> (WAD * WAD) * (p * b)"
    by (simp add: algebra_simps)
  moreover have "0 < p * b" using assms by simp
  ultimately show ?thesis by (simp only: mult_le_cancel_right_pos)
qed


lemma quotients_product_exact:
  fixes p b :: int
  assumes "0 < p" and "0 < b" and "b dvd p * WAD" and "p dvd b * WAD"
  shows "((p * WAD) div b) * ((b * WAD) div p) = WAD * WAD"
proof -
  let ?s = "(p * WAD) div b" and ?t = "(b * WAD) div p"
  have s: "?s * b = p * WAD" using assms by simp
  have t: "?t * p = b * WAD" using assms by simp
  have "(?s * b) * (?t * p) = (p * WAD) * (b * WAD)" by (simp only: s t)
  then have "(?s * ?t) * (p * b) = (WAD * WAD) * (p * b)"
    by (simp add: algebra_simps)
  moreover have "p * b \<noteq> 0" using assms by simp
  ultimately show ?thesis by (simp only: mult_cancel_right) simp
qed

text \<open>
  Claim C6, as amended. For every order with a strictly positive pay amount and a
  strictly positive buy amount, both prices are defined, their fixed-point product
  is at most 1 (the raw value \<open>WAD\<close>), and it is exactly 1 whenever both quotients are
  exact.
\<close>

theorem price_product_at_most_one:
  assumes "0 < pay_amount ord" and "0 < buy_amount ord"
  shows "\<exists>s t. sell_to_buy_price ord = Inr s \<and> buy_to_sell_price ord = Inr t \<and>
           wad_mul s t \<le> WAD \<and>
           (buy_amount ord dvd pay_amount ord * WAD \<and> pay_amount ord dvd buy_amount ord * WAD
              \<longrightarrow> wad_mul s t = WAD)"
proof -
  let ?p = "pay_amount ord" and ?b = "buy_amount ord"
  let ?s = "(?p * WAD) div ?b" and ?t = "(?b * WAD) div ?p"
  have W: "0 < WAD" by (simp add: WAD_def)
  have s: "sell_to_buy_price ord = Inr ?s"
    using assms by (simp add: sell_to_buy_price_def wad_div_pos)
  have t: "buy_to_sell_price ord = Inr ?t"
    using assms by (simp add: buy_to_sell_price_def wad_div_pos)
  have s0: "0 \<le> ?s" using assms W by (simp add: pos_imp_zdiv_nonneg_iff)
  have t0: "0 \<le> ?t" using assms W by (simp add: pos_imp_zdiv_nonneg_iff)
  have m: "wad_mul ?s ?t = (?s * ?t) div WAD" using s0 t0 by (rule wad_mul_nonneg)
  have "?s * ?t \<le> WAD * WAD" using assms by (rule quotients_product_le)
  then have "(?s * ?t) div WAD \<le> (WAD * WAD) div WAD" by (rule zdiv_mono1) (rule W)
  then have le: "wad_mul ?s ?t \<le> WAD" using m W by simp
  have eq: "wad_mul ?s ?t = WAD" if "?b dvd ?p * WAD \<and> ?p dvd ?b * WAD"
  proof -
    have "?s * ?t = WAD * WAD" using assms that by (simp add: quotients_product_exact)
    then show ?thesis using m W by simp
  qed
  show ?thesis using s t le eq by blast
qed

theorem price_product_at_most_one_witness:
  "sell_to_buy_price (order_of (Address ''OTC'') 1 (example_offer 2 1 True)) = Inr 2000000000000000000 \<and>
   buy_to_sell_price (order_of (Address ''OTC'') 1 (example_offer 2 1 True)) = Inr 500000000000000000 \<and>
   wad_mul 2000000000000000000 500000000000000000 = WAD"
proof -
  let ?o = "order_of (Address ''OTC'') 1 (example_offer 2 1 True)"
  have p: "0 < pay_amount ?o" and b: "0 < buy_amount ?o"
    by (simp_all add: order_of_def example_offer_def)
  have d: "buy_amount ?o dvd pay_amount ?o * WAD \<and> pay_amount ?o dvd buy_amount ?o * WAD"
    by (simp add: order_of_def example_offer_def WAD_def)
  have s: "sell_to_buy_price ?o = Inr 2000000000000000000"
    by (simp add: sell_to_buy_price_def wad_div_def order_of_def example_offer_def WAD_def)
  have t: "buy_to_sell_price ?o = Inr 500000000000000000"
    by (simp add: buy_to_sell_price_def wad_div_def order_of_def example_offer_def WAD_def)
  show ?thesis using price_product_at_most_one [OF p b] d s t by auto
qed

text \<open>
  The product is not 1 for every valid order: with pay amount 1 and buy amount 3 (raw
  values) the prices are 0.333333333333333333 and 3, whose product is
  0.999999999999999999; and with pay amount 0 the buy-to-sell price divides by zero.
\<close>

theorem price_product_counterexample:
  "sell_to_buy_price (order_of (Address ''OTC'') 1 (example_offer 1 3 True)) = Inr 333333333333333333 \<and>
   buy_to_sell_price (order_of (Address ''OTC'') 1 (example_offer 1 3 True)) = Inr 3000000000000000000 \<and>
   wad_mul 333333333333333333 3000000000000000000 = 999999999999999999 \<and>
   WAD = 1000000000000000000 \<and>
   pay_amount (order_of (Address ''OTC'') 1 (example_offer 0 3 True)) = 0 \<and>
   buy_amount (order_of (Address ''OTC'') 1 (example_offer 0 3 True)) = 3 \<and>
   buy_to_sell_price (order_of (Address ''OTC'') 1 (example_offer 0 3 True)) = Inl ArithmeticError"
  by (simp add: sell_to_buy_price_def buy_to_sell_price_def wad_div_def wad_mul_def
      order_of_def example_offer_def WAD_def)

section \<open>The cache of absent ids\<close>

lemma get_order_cached:
  "oid \<in> none_orders st \<Longrightarrow> get_order L st oid = (None, st)"
  by (simp add: get_order_def)

lemma get_order_None_cached:
  "fst (get_order L st oid) = None \<Longrightarrow> oid \<in> none_orders (snd (get_order L st oid))"
  by (auto simp add: get_order_fst get_order_none_orders split: if_splits)

lemma matching_make_snd:
  "snd (matching_make L st pt pa bt ba pos) = st \<or>
   snd (matching_make L st pt pa bt ba pos) = snd (get_orders L st)"
proof (cases pos)
  case None
  have "snd (matching_make L st pt pa bt ba None) = st \<or>
        snd (matching_make L st pt pa bt ba None) = snd (position L st pt pa bt ba)"
    by (cases "fst (position L st pt pa bt ba)")
       (simp_all add: matching_make_def split_beta)
  then show ?thesis using None by (simp only: position_snd)
next
  case (Some p)
  then show ?thesis by (simp add: matching_make_def)
qed

lemma exec_none_orders_mono: "none_orders st \<subseteq> none_orders (exec L c st)"
proof (cases c)
  case (MatchingMake pt pa bt ba pos)
  show ?thesis
    using matching_make_snd [of L st pt pa bt ba pos]
    by (auto simp add: MatchingMake get_orders_none_orders)
qed (auto simp add: get_last_order_id_def get_order_none_orders get_orders_none_orders
      position_snd is_buy_enabled_def is_matching_enabled_def)

lemma run_none_orders_mono: "none_orders st \<subseteq> none_orders (run cs st)"
proof (induction cs arbitrary: st)
  case Nil
  show ?case by simp
next
  case (Cons a cs)
  obtain L c where a: "a = (L, c)" by (cases a)
  have "none_orders st \<subseteq> none_orders (exec L c st)" by (rule exec_none_orders_mono)
  also have "\<dots> \<subseteq> none_orders (run cs (exec L c st))" by (rule Cons.IH)
  finally show ?case by (simp add: a)
qed

text \<open>
  Claim C9. The cache of absent ids only grows: every operation of the client, and
  every sequence of operations, each against any ledger, leaves a cache that contains
  the one it started from; and for an id in the cache \<open>get_order\<close> returns absent,
  at once and after any sequence of operations, whatever the ledger it is run against
  reports for that id.
\<close>

theorem none_orders_only_grows:
  "none_orders self \<subseteq> none_orders (exec L c self) \<and>
   none_orders self \<subseteq> none_orders (run cs self) \<and>
   (oid \<in> none_orders self \<longrightarrow>
      fst (get_order L' self oid) = None \<and>
      fst (get_order L' (run cs self) oid) = None)"
proof -
  have "fst (get_order L' self oid) = None \<and> fst (get_order L' (run cs self) oid) = None"
    if "oid \<in> none_orders self"
  proof -
    have "oid \<in> none_orders (run cs self)" using that run_none_orders_mono [of self cs] by blast
    then show ?thesis using that by (simp add: get_order_cached)
  qed
  then show ?thesis
    using exec_none_orders_mono [of self L c] run_none_orders_mono [of self cs] by blast
qed

theorem none_orders_only_grows_witness:
  "3 \<in> none_orders (snd (get_order example_book example_market 3)) \<and>
   none_orders (snd (get_order example_book example_market 3)) \<subseteq>
     none_orders (exec revived_book GetOrders (snd (get_order example_book example_market 3))) \<and>
   fst (get_order revived_book
          (run [(revived_book, GetOrders),
                (revived_book, MatchingMake (Address ''DAI'') 1 (Address ''WETH'') 1 None)]
             (snd (get_order example_book example_market 3))) 3) = None"
proof -
  have h: "3 \<in> none_orders (snd (get_order example_book example_market 3))"
    by code_simp
  show ?thesis
    using h none_orders_only_grows
      [of "snd (get_order example_book example_market 3)" revived_book GetOrders
          "[(revived_book, GetOrders),
            (revived_book, MatchingMake (Address ''DAI'') 1 (Address ''WETH'') 1 None)]"
          3 revived_book]
    by blast
qed

text \<open>
  Claim C4. Once \<open>get_order\<close> has returned absent for an id, every later
  \<open>get_order\<close> for that id on the same client, after any sequence of operations and
  against any ledger, returns absent and leaves the client state as it found it; in
  particular the trace of remote reads is unchanged, so no new remote query is issued.
\<close>

theorem get_order_absent_idempotent:
  assumes "fst (get_order L self oid) = None"
  shows "get_order L' (run cs (snd (get_order L self oid))) oid =
           (None, run cs (snd (get_order L self oid))) \<and>
         contract_calls (snd (get_order L' (run cs (snd (get_order L self oid))) oid)) =
           contract_calls (run cs (snd (get_order L self oid)))"
proof -
  let ?st = "snd (get_order L self oid)"
  have "oid \<in> none_orders ?st" using assms by (rule get_order_None_cached)
  then have "oid \<in> none_orders (run cs ?st)" using run_none_orders_mono [of ?st cs] by blast
  then have "get_order L' (run cs ?st) oid = (None, run cs ?st)" by (rule get_order_cached)
  then show ?thesis by simp
qed

theorem get_order_absent_idempotent_witness:
  "fst (get_order example_book example_market 3) = None \<and>
   get_order revived_book
     (run [(example_book, GetOrders),
           (revived_book, Position (Address ''DAI'') 1 (Address ''WETH'') 1)]
        (snd (get_order example_book example_market 3))) 3 =
     (None,
      run [(example_book, GetOrders),
           (revived_book, Position (Address ''DAI'') 1 (Address ''WETH'') 1)]
        (snd (get_order example_book example_market 3)))"
proof -
  have h: "fst (get_order example_book example_market 3) = None"
    by code_simp
  show ?thesis
    using h get_order_absent_idempotent [OF h, of revived_book
      "[(example_book, GetOrders),
        (revived_book, Position (Address ''DAI'') 1 (Address ''WETH'') 1)]"]
    by blast
qed

section \<open>Listing the active orders\<close>

lemma get_orders_ids:
  "map order_id (fst (get_orders L st)) =
     filter (\<lambda>i. i \<notin> none_orders st \<and> offer_active (offers L i)) [1..last_offer_id L]"
proof -
  have "map order_id (map (\<lambda>i. order_of (address st) i (offers L i)) xs) = xs" for xs
    by (induction xs) (simp_all add: order_of_def)
  then show ?thesis by (simp add: get_orders_fst)
qed

lemma get_orders_member:
  assumes "ord \<in> set (fst (get_orders L st))"
  shows "order_id ord \<in> {1..last_offer_id L}"
    and "order_id ord \<notin> none_orders st"
    and "offer_active (offers L (order_id ord))"
    and "ord = order_of (address st) (order_id ord) (offers L (order_id ord))"
proof -
  obtain i where i: "i \<in> {1..last_offer_id L}" "i \<notin> none_orders st"
      "offer_active (offers L i)" and o: "ord = order_of (address st) i (offers L i)"
    using assms by (auto simp add: get_orders_fst)
  have "order_id ord = i" by (simp add: o order_of_def)
  then show "order_id ord \<in> {1..last_offer_id L}" "order_id ord \<notin> none_orders st"
    "offer_active (offers L (order_id ord))"
    "ord = order_of (address st) (order_id ord) (offers L (order_id ord))"
    using i o by simp_all
qed

lemma get_orders_strictly_ascending:
  "sorted_wrt (<) (map order_id (fst (get_orders L st)))"
  unfolding get_orders_ids by (rule sorted_wrt_filter) (rule sorted_wrt_upto)

text \<open>
  Claim C3. For every ledger with last order id \<open>n\<close>, \<open>get_orders\<close> runs
  \<open>get_order\<close> for exactly the ids 1 to \<open>n\<close>, in this order. An id already cached as
  absent is answered from the cache; for each other id of 1 to \<open>n\<close> one remote read
  is issued, in ascending order. Every order returned has an id between 1 and \<open>n\<close>
  that the ledger reports as active, and is built from the ledger's slot; the ids of
  the returned list are those of the active slots that are not cached as absent,
  strictly ascending, so without duplicates.
\<close>

theorem get_orders_enumerates_active:
  "get_orders L self =
     (let (n, self0) = get_last_order_id L self;
          (orders, self1) = get_order_each L self0 [1..n]
      in (map the (filter (\<lambda>ord. ord \<noteq> None) orders), self1)) \<and>
   contract_calls (snd (get_orders L self)) =
     contract_calls self @ CallLastOfferId #
       map CallOffers (filter (\<lambda>i. i \<notin> none_orders self) [1..last_offer_id L]) \<and>
   map order_id (fst (get_orders L self)) =
     filter (\<lambda>i. i \<notin> none_orders self \<and> offer_active (offers L i)) [1..last_offer_id L] \<and>
   (\<forall>ord \<in> set (fst (get_orders L self)).
      order_id ord \<in> {1..last_offer_id L} \<and> offer_active (offers L (order_id ord)) \<and>
      ord = order_of (address self) (order_id ord) (offers L (order_id ord))) \<and>
   sorted_wrt (<) (map order_id (fst (get_orders L self))) \<and>
   distinct (map order_id (fst (get_orders L self)))"
proof -
  have a: "get_orders L self =
     (let (n, self0) = get_last_order_id L self;
          (orders, self1) = get_order_each L self0 [1..n]
      in (map the (filter (\<lambda>ord. ord \<noteq> None) orders), self1))"
    by (simp add: get_orders_def split_beta order_ids_upto)
  have s: "sorted_wrt (<) (map order_id (fst (get_orders L self)))"
    by (rule get_orders_strictly_ascending)
  then have d: "distinct (map order_id (fst (get_orders L self)))"
    by (simp only: strict_sorted_iff)
  show ?thesis
    using a s d get_orders_calls [of L self] get_orders_ids [of L self]
      get_orders_member [of _ L self]
    by blast
qed

theorem get_orders_enumerates_active_witness:
  "map order_id (fst (get_orders example_book example_market)) = [1, 2, 4, 5] \<and>
   contract_calls (snd (get_orders example_book example_market)) =
     [CallLastOfferId, CallOffers 1, CallOffers 2, CallOffers 3, CallOffers 4, CallOffers 5] \<and>
   sorted_wrt (<) (map order_id (fst (get_orders example_book example_market))) \<and>
   offer_active (offers example_book 4)"
proof -
  have f: "filter (\<lambda>i. i \<notin> none_orders example_market \<and> offer_active (offers example_book i))
             [1..last_offer_id example_book] = [1, 2, 4, 5]"
    by code_simp
  have c: "contract_calls example_market @ CallLastOfferId #
       map CallOffers (filter (\<lambda>i. i \<notin> none_orders example_market) [1..last_offer_id example_book]) =
     [CallLastOfferId, CallOffers 1, CallOffers 2, CallOffers 3, CallOffers 4, CallOffers 5]"
    by code_simp
  have m: "order_of (address example_market) 4 (offers example_book 4)
             \<in> set (fst (get_orders example_book example_market))"
    by code_simp
  have i: "order_id (order_of (address example_market) 4 (offers example_book 4)) = 4"
    by (simp add: order_of_def)
  show ?thesis
    using get_orders_enumerates_active [of example_book example_market] f c m i
    by (metis (no_types, lifting))
qed

section \<open>The position estimator\<close>

lemma qualifies_True_iff:
  "qualifies pt pa bt ba ord = Inr True \<longleftrightarrow>
     pay_token ord = pt \<and> buy_token ord = bt \<and>
     (\<exists>p q. sell_to_buy_price ord = Inr p \<and> wad_div pa ba = Inr q \<and> q \<le> p)"
  by (auto simp add: qualifies_def sell_to_buy_price_def split: sum.splits)

lemma raw_price_eq: "sell_to_buy_price ord = Inr p \<Longrightarrow> raw_price ord = p"
  by (simp add: raw_price_def)

lemma qualifies_lower_price:
  assumes "pay_token ord = pt \<and> buy_token ord = bt \<longrightarrow>
             (\<exists>p q. sell_to_buy_price ord = Inr p \<and> wad_div pa ba = Inr q \<and> p < q)"
  shows "qualifies pt pa bt ba ord = Inr False"
proof (cases "pay_token ord = pt \<and> buy_token ord = bt")
  case True
  then obtain p q where "sell_to_buy_price ord = Inr p" "wad_div pa ba = Inr q" "p < q"
    using assms by blast
  then show ?thesis using True by (simp add: qualifies_def sell_to_buy_price_def)
next
  case False
  then show ?thesis by (rule qualifies_other_pair)
qed

lemma example_orders:
  "fst (get_orders example_book example_market) =
     [order_of (Address ''OTC'') 1 (example_offer 3 1 True),
      order_of (Address ''OTC'') 2 (example_offer 2 1 True),
      order_of (Address ''OTC'') 4 (example_offer 4 2 True),
      order_of (Address ''OTC'') 5 (example_offer 1 1 True)]"
  by code_simp

lemma position_best:
  assumes fr: "filter_raising (qualifies pt pa bt ba) (fst (get_orders L st)) = Inr orders"
    and ne: "orders \<noteq> []"
  shows "fst (position L st pt pa bt ba) = Inr (order_id (hd (sort_key raw_price orders)))"
    and "hd (sort_key raw_price orders) \<in> set (fst (get_orders L st))"
    and "qualifies pt pa bt ba (hd (sort_key raw_price orders)) = Inr True"
    and "\<And>x. x \<in> set (fst (get_orders L st)) \<Longrightarrow> qualifies pt pa bt ba x = Inr True \<Longrightarrow>
           raw_price (hd (sort_key raw_price orders)) \<le> raw_price x"
    and "hd (sort_key raw_price orders) =
           hd (filter (\<lambda>y. raw_price y = raw_price (hd (sort_key raw_price orders))) orders)"
proof -
  let ?h = "hd (sort_key raw_price orders)"
  have o: "orders = filter (\<lambda>x. qualifies pt pa bt ba x = Inr True) (fst (get_orders L st))"
    using fr by (rule filter_raising_Inr)
  show "fst (position L st pt pa bt ba) = Inr (order_id ?h)"
    using position_fst [OF fr] ne by simp
  have m: "?h \<in> set orders" using ne by (rule sort_key_hd(1))
  show "?h \<in> set (fst (get_orders L st))" using m by (simp add: o)
  show "qualifies pt pa bt ba ?h = Inr True" using m by (simp add: o)
  show "raw_price ?h \<le> raw_price x"
    if "x \<in> set (fst (get_orders L st))" "qualifies pt pa bt ba x = Inr True" for x
  proof -
    have "x \<in> set orders" using that by (simp add: o)
    then show ?thesis by (rule sort_key_hd(2) [OF ne])
  qed
  show "?h = hd (filter (\<lambda>y. raw_price y = raw_price ?h) orders)"
    using ne by (rule sort_key_hd(3))
qed

lemma hd_least_in_strictly_ascending:
  assumes "sorted_wrt (<) (map f xs)" and "x \<in> set xs"
  shows "f (hd xs) \<le> (f x :: int)"
proof (cases xs)
  case Nil
  then show ?thesis using assms by simp
next
  case (Cons y ys)
  then show ?thesis using assms by auto
qed

lemma position_tie_returned:
  assumes pos: "fst (position L self pt pa bt ba) = Inr r"
    and mem: "ord \<in> set (fst (get_orders L self))"
    and tok: "pay_token ord = pt" "buy_token ord = bt"
    and k: "sell_to_buy_price ord = Inr k"
    and q: "wad_div pa ba = Inr q"
    and qk: "q \<le> k"
    and least: "\<forall>other \<in> set (fst (get_orders L self)). \<forall>k'.
                  pay_token other = pt \<and> buy_token other = bt \<and>
                  sell_to_buy_price other = Inr k' \<and> q \<le> k' \<longrightarrow> k \<le> k'"
  shows "r \<le> order_id ord \<and>
         (\<exists>best \<in> set (fst (get_orders L self)).
            order_id best = r \<and> pay_token best = pt \<and> buy_token best = bt \<and>
            sell_to_buy_price best = Inr k)"
proof -
  let ?all = "fst (get_orders L self)"
  obtain orders where fr: "filter_raising (qualifies pt pa bt ba) ?all = Inr orders"
  proof (cases "filter_raising (qualifies pt pa bt ba) ?all")
    case (Inl e)
    then have "fst (position L self pt pa bt ba) = Inl e" by (rule position_fst_error)
    then show ?thesis using pos by simp
  next
    case (Inr orders)
    then show ?thesis by (rule that)
  qed
  have o: "orders = filter (\<lambda>x. qualifies pt pa bt ba x = Inr True) ?all"
    using fr by (rule filter_raising_Inr)
  have oq: "qualifies pt pa bt ba ord = Inr True"
    unfolding qualifies_True_iff using tok k q qk by blast
  then have om: "ord \<in> set orders" using mem by (simp add: o)
  then have ne: "orders \<noteq> []" by (metis empty_iff empty_set)
  let ?h = "hd (sort_key raw_price orders)"
  note best = position_best [OF fr ne]
  have r: "r = order_id ?h" using best(1) pos by simp
  have hq: "qualifies pt pa bt ba ?h = Inr True" by (rule best(3))
  then obtain p q' where htok: "pay_token ?h = pt" "buy_token ?h = bt"
    and p: "sell_to_buy_price ?h = Inr p" and q': "wad_div pa ba = Inr q'" and qp: "q' \<le> p"
    unfolding qualifies_True_iff by blast
  have qq: "q' = q" using q q' by simp
  have hm: "?h \<in> set ?all" by (rule best(2))
  have "k \<le> p" using least hm htok p qp qq by blast
  moreover have "p \<le> k"
  proof -
    have "raw_price ?h \<le> raw_price ord" using mem oq by (rule best(4))
    then show ?thesis using raw_price_eq [OF p] raw_price_eq [OF k] by simp
  qed
  ultimately have pk: "p = k" by simp
  have rh: "raw_price ?h = k" using raw_price_eq [OF p] pk by simp
  let ?ties = "filter (\<lambda>y. raw_price y = k) orders"
  have h: "?h = hd ?ties" using best(5) unfolding rh .
  have "sorted_wrt (<) (map order_id ?all)" by (rule get_orders_strictly_ascending)
  then have "sorted_wrt (<) (map order_id orders)"
    unfolding o filter_map [symmetric] by (simp add: sorted_wrt_map sorted_wrt_filter)
  then have st: "sorted_wrt (<) (map order_id ?ties)"
    by (simp add: sorted_wrt_map sorted_wrt_filter)
  have "ord \<in> set ?ties" using om raw_price_eq [OF k] by simp
  then have "order_id (hd ?ties) \<le> order_id ord"
    using st by (intro hd_least_in_strictly_ascending)
  then have le: "r \<le> order_id ord" using r h by simp
  show ?thesis using le hm r htok p pk by blast
qed

text \<open>
  Claim C2. When every active order of the new order's token pair has a sell-to-buy
  price strictly below the new order's, and so too when no active order has that
  pair, \<open>position\<close> returns the neutral hint 0.
\<close>

theorem position_neutral_hint:
  assumes "\<forall>ord \<in> set (fst (get_orders L self)).
             pay_token ord = pt \<and> buy_token ord = bt \<longrightarrow>
             (\<exists>p q. sell_to_buy_price ord = Inr p \<and> wad_div pa ba = Inr q \<and> p < q)"
  shows "fst (position L self pt pa bt ba) = Inr 0"
proof -
  have f: "qualifies pt pa bt ba ord = Inr False" if "ord \<in> set (fst (get_orders L self))" for ord
    using assms that by (intro qualifies_lower_price) blast
  have "filter_raising (qualifies pt pa bt ba) (fst (get_orders L self)) =
          Inr (filter (\<lambda>x. qualifies pt pa bt ba x = Inr True) (fst (get_orders L self)))"
    by (rule filter_raising_total) (use f in blast)
  moreover have "filter (\<lambda>x. qualifies pt pa bt ba x = Inr True) (fst (get_orders L self)) = []"
    by (simp add: f)
  ultimately have "filter_raising (qualifies pt pa bt ba) (fst (get_orders L self)) = Inr []"
    by simp
  from position_fst [OF this] show ?thesis by simp
qed

theorem position_neutral_hint_witness:
  "fst (position example_book example_market (Address ''DAI'') 5 (Address ''WETH'') 1) = Inr 0 \<and>
   fst (position example_book example_market (Address ''WETH'') 1 (Address ''DAI'') 1) = Inr 0"
proof -
  have a: "\<forall>ord \<in> set (fst (get_orders example_book example_market)).
             pay_token ord = Address ''DAI'' \<and> buy_token ord = Address ''WETH'' \<longrightarrow>
             (\<exists>p q. sell_to_buy_price ord = Inr p \<and> wad_div 5 1 = Inr q \<and> p < q)"
    unfolding example_orders
    by (simp add: order_of_def example_offer_def sell_to_buy_price_def wad_div_def WAD_def)
  have b: "\<forall>ord \<in> set (fst (get_orders example_book example_market)).
             pay_token ord = Address ''WETH'' \<and> buy_token ord = Address ''DAI'' \<longrightarrow>
             (\<exists>p q. sell_to_buy_price ord = Inr p \<and> wad_div 1 1 = Inr q \<and> p < q)"
    unfolding example_orders
    by (simp add: order_of_def example_offer_def)
  show ?thesis
    using position_neutral_hint [OF a] position_neutral_hint [OF b] by simp
qed

text \<open>
  Claim C1, as amended. For every new order with a positive buy amount and every
  ledger whose active orders have positive buy amounts, if at least one active order
  has the new order's pay token and buy token and a sell-to-buy price at least the new
  order's, then \<open>position\<close> returns the id of an active order of that pair whose
  price is at least the new order's and is minimal among all such orders.
\<close>

theorem position_minimal_qualifying:
  assumes ba: "0 < ba"
    and valid: "\<forall>ord \<in> set (fst (get_orders L self)). 0 < buy_amount ord"
    and ex: "\<exists>ord \<in> set (fst (get_orders L self)).
               pay_token ord = pt \<and> buy_token ord = bt \<and>
               (\<exists>p q. sell_to_buy_price ord = Inr p \<and> wad_div pa ba = Inr q \<and> q \<le> p)"
  shows "\<exists>ord \<in> set (fst (get_orders L self)).
           fst (position L self pt pa bt ba) = Inr (order_id ord) \<and>
           order_id ord \<in> {1..last_offer_id L} \<and>
           offer_active (offers L (order_id ord)) \<and>
           pay_token ord = pt \<and> buy_token ord = bt \<and>
           (\<exists>p q. sell_to_buy_price ord = Inr p \<and> wad_div pa ba = Inr q \<and> q \<le> p \<and>
              (\<forall>other \<in> set (fst (get_orders L self)). \<forall>p'.
                 pay_token other = pt \<and> buy_token other = bt \<and>
                 sell_to_buy_price other = Inr p' \<and> q \<le> p' \<longrightarrow> p \<le> p'))"
proof -
  let ?all = "fst (get_orders L self)"
  let ?orders = "filter (\<lambda>x. qualifies pt pa bt ba x = Inr True) ?all"
  let ?h = "hd (sort_key raw_price ?orders)"
  have "\<exists>b. qualifies pt pa bt ba x = Inr b" if "x \<in> set ?all" for x
  proof (rule qualifies_defined)
    show "buy_amount x \<noteq> 0" using valid that by auto
    show "ba \<noteq> 0" using ba by simp
  qed
  then have fr: "filter_raising (qualifies pt pa bt ba) ?all = Inr ?orders"
    by (intro filter_raising_total) blast
  obtain w where "w \<in> set ?all" "qualifies pt pa bt ba w = Inr True"
    using ex unfolding qualifies_True_iff by blast
  then have "w \<in> set ?orders" by simp
  then have ne: "?orders \<noteq> []" by (metis empty_iff empty_set)
  note best = position_best [OF fr ne]
  have hq: "qualifies pt pa bt ba ?h = Inr True" by (rule best(3))
  then obtain p q where tok: "pay_token ?h = pt" "buy_token ?h = bt"
    and p: "sell_to_buy_price ?h = Inr p" and q: "wad_div pa ba = Inr q" and qp: "q \<le> p"
    unfolding qualifies_True_iff by blast
  have rp: "raw_price ?h = p" using p by (rule raw_price_eq)
  have least: "p \<le> p'"
    if "other \<in> set ?all" "pay_token other = pt \<and> buy_token other = bt \<and>
        sell_to_buy_price other = Inr p' \<and> q \<le> p'" for other p'
  proof -
    have "qualifies pt pa bt ba other = Inr True"
      unfolding qualifies_True_iff using that(2) q by blast
    then have "raw_price ?h \<le> raw_price other" using that(1) by (intro best(4))
    moreover have "raw_price other = p'" using that(2) by (intro raw_price_eq) simp
    ultimately show ?thesis using rp by simp
  qed
  have mem: "?h \<in> set ?all" by (rule best(2))
  have "order_id ?h \<in> {1..last_offer_id L}" "offer_active (offers L (order_id ?h))"
    using get_orders_member [OF mem] by simp_all
  then show ?thesis using mem best(1) tok p q qp least by blast
qed

theorem position_minimal_qualifying_witness:
  "fst (position example_book example_market (Address ''DAI'') 1 (Address ''WETH'') 2) = Inr 5 \<and>
   (\<exists>ord \<in> set (fst (get_orders example_book example_market)).
      fst (position example_book example_market (Address ''DAI'') 1 (Address ''WETH'') 2) =
        Inr (order_id ord) \<and>
      offer_active (offers example_book (order_id ord)) \<and>
      pay_token ord = Address ''DAI'' \<and> buy_token ord = Address ''WETH'')"
proof -
  have ba: "(0::int) < 2" by simp
  have valid: "\<forall>ord \<in> set (fst (get_orders example_book example_market)). 0 < buy_amount ord"
    unfolding example_orders by (simp add: order_of_def example_offer_def)
  have ex: "\<exists>ord \<in> set (fst (get_orders example_book example_market)).
               pay_token ord = Address ''DAI'' \<and> buy_token ord = Address ''WETH'' \<and>
               (\<exists>p q. sell_to_buy_price ord = Inr p \<and> wad_div 1 2 = Inr q \<and> q \<le> p)"
    unfolding example_orders
    by (simp add: order_of_def example_offer_def sell_to_buy_price_def wad_div_def WAD_def)
  have e: "fst (position example_book example_market (Address ''DAI'') 1 (Address ''WETH'') 2) = Inr 5"
    by code_simp
  show ?thesis
    using e position_minimal_qualifying [OF ba valid ex] by blast
qed

text \<open>
  Without a qualifying order the result is not the id of an active order: on the
  example book a new order at the price 5 gets the hint 0, and no active order has
  the id 0.
\<close>

theorem position_minimal_qualifying_counterexample:
  "(0::int) < 1 \<and>
   fst (position example_book example_market (Address ''DAI'') 5 (Address ''WETH'') 1) = Inr 0 \<and>
   map order_id (fst (get_orders example_book example_market)) = [1, 2, 4, 5] \<and>
   \<not> (\<exists>ord \<in> set (fst (get_orders example_book example_market)). order_id ord = 0)"
proof -
  have a: "fst (position example_book example_market (Address ''DAI'') 5 (Address ''WETH'') 1) = Inr 0"
    by code_simp
  have b: "map order_id (fst (get_orders example_book example_market)) = [1, 2, 4, 5]"
    by code_simp
  have c: "\<not> (\<exists>ord \<in> set (fst (get_orders example_book example_market)). order_id ord = 0)"
    unfolding example_orders by (simp add: order_of_def)
  show ?thesis using a b c by simp
qed

text \<open>
  Claim C8. When an active order of the new order's pair has the minimum qualifying
  price \<open>k\<close> (every active order having a positive buy amount), \<open>position\<close> returns
  the id \<open>r\<close> of an active order of the pair with that same price \<open>k\<close>, and \<open>r\<close> is
  at most the id of every such order: among the orders that share the minimum
  qualifying price the lowest id is returned.
\<close>

theorem position_tie_lowest_id:
  assumes valid: "\<forall>ord \<in> set (fst (get_orders L self)). 0 < buy_amount ord"
    and mem: "ord \<in> set (fst (get_orders L self))"
    and tok: "pay_token ord = pt" "buy_token ord = bt"
    and k: "sell_to_buy_price ord = Inr k"
    and q: "wad_div pa ba = Inr q"
    and qk: "q \<le> k"
    and least: "\<forall>other \<in> set (fst (get_orders L self)). \<forall>k'.
                  pay_token other = pt \<and> buy_token other = bt \<and>
                  sell_to_buy_price other = Inr k' \<and> q \<le> k' \<longrightarrow> k \<le> k'"
  shows "\<exists>r. fst (position L self pt pa bt ba) = Inr r \<and> r \<le> order_id ord \<and>
         (\<exists>best \<in> set (fst (get_orders L self)).
            order_id best = r \<and> pay_token best = pt \<and> buy_token best = bt \<and>
            sell_to_buy_price best = Inr k)"
proof -
  have ba: "ba \<noteq> 0" using q by (auto simp add: wad_div_def split: if_splits)
  have "\<exists>r. fst (position L self pt pa bt ba) = Inr r"
  proof (rule position_returns [OF ba])
    fix x assume "x \<in> set (fst (get_orders L self))"
    then show "buy_amount x \<noteq> 0" using valid by auto
  qed
  then obtain r where pos: "fst (position L self pt pa bt ba) = Inr r" by blast
  show ?thesis
    using pos position_tie_returned [OF pos mem tok k q qk least] by blast
qed

theorem position_tie_lowest_id_witness:
  "fst (position example_book example_market (Address ''DAI'') 3 (Address ''WETH'') 2) = Inr 2 \<and>
   (2::int) \<le> order_id (order_of (Address ''OTC'') 4 (example_offer 4 2 True)) \<and>
   sell_to_buy_price (order_of (Address ''OTC'') 4 (example_offer 4 2 True)) =
     Inr 2000000000000000000 \<and>
   (\<exists>best \<in> set (fst (get_orders example_book example_market)).
      order_id best = 2 \<and> sell_to_buy_price best = Inr 2000000000000000000)"
proof -
  let ?ord = "order_of (Address ''OTC'') 4 (example_offer 4 2 True)"
  have pos: "fst (position example_book example_market (Address ''DAI'') 3 (Address ''WETH'') 2) = Inr 2"
    by code_simp
  have mem: "?ord \<in> set (fst (get_orders example_book example_market))"
    unfolding example_orders by simp
  have tok: "pay_token ?ord = Address ''DAI''" "buy_token ?ord = Address ''WETH''"
    by (simp_all add: order_of_def example_offer_def)
  have k: "sell_to_buy_price ?ord = Inr 2000000000000000000"
    by (simp add: order_of_def example_offer_def sell_to_buy_price_def wad_div_def WAD_def)
  have q: "wad_div 3 2 = Inr 1500000000000000000"
    by (simp add: wad_div_def WAD_def)
  have qk: "(1500000000000000000::int) \<le> 2000000000000000000" by simp
  have valid: "\<forall>ord \<in> set (fst (get_orders example_book example_market)). 0 < buy_amount ord"
    unfolding example_orders by (simp add: order_of_def example_offer_def)
  have least: "\<forall>other \<in> set (fst (get_orders example_book example_market)). \<forall>k'.
                  pay_token other = Address ''DAI'' \<and> buy_token other = Address ''WETH'' \<and>
                  sell_to_buy_price other = Inr k' \<and> 1500000000000000000 \<le> k'
                  \<longrightarrow> 2000000000000000000 \<le> k'"
    unfolding example_orders
    by (auto simp add: order_of_def example_offer_def sell_to_buy_price_def wad_div_def WAD_def)
  show ?thesis
    using pos k position_tie_lowest_id [OF valid mem tok k q qk least] by force
qed

end
